theory Spec2Isabelle
  imports Complex_Main
begin

section \<open>JavaScript numbers\<close>

text \<open>
  The coordinates, sizes and ratios of the detector services are JavaScript numbers:
  IEEE 754 binary64 values, every arithmetic result rounded to the nearest double, ties
  to even. A number is a finite rational, an infinity or NaN; \<open>fl\<close> rounds an exact
  result to the double the processor returns, with overflow to an infinity and gradual
  underflow. The sign of a zero is not modelled: it is observed only by a division by a
  negative zero, and every divisor in the functions modelled below is a product of
  non-negative numbers, an absolute value or a sum of absolute values.
\<close>

datatype jsnum = Finite rat | PosInfinity | NegInfinity | NaN

text \<open>The number of binary digits of a positive integer.\<close>

function bits :: "int \<Rightarrow> int" where
  "bits n = (if n \<le> 0 then 0 else 1 + bits (n div 2))"
  by pat_completeness auto
termination
  by (relation "measure nat") auto

text \<open>The binary exponent of a positive rational \<open>a\<close>: the \<open>e\<close> with
  \<open>2\<^sup>e \<le> a < 2\<^sup>e\<^sup>+\<^sup>1\<close>.\<close>

definition exponent :: "rat \<Rightarrow> int" where
  "exponent a =
     (let (p, q) = quotient_of a;
          k = bits p - bits q
      in if 2 powi k \<le> a then k else k - 1)"

definition roundHalfEven :: "rat \<Rightarrow> int" where
  "roundHalfEven m =
     (let f = \<lfloor>m\<rfloor>; r = m - of_int f
      in if r < 1 / 2 then f else if 1 / 2 < r then f + 1 else if even f then f else f + 1)"

text \<open>Rounding to binary64: 53 significant bits, exponents from -1022 to 1023, the spacing
  of the subnormal numbers below that.\<close>

definition fl :: "rat \<Rightarrow> jsnum" where
  "fl x =
     (if x = 0 then Finite 0
      else
        let a = \<bar>x\<bar>;
            e = exponent a;
            ulp = 2 powi (max e (- 1022) - 52);
            n = roundHalfEven (a / ulp)
        in if 1024 \<le> e \<or> (e = 1023 \<and> n = 2 ^ 53)
           then (if 0 < x then PosInfinity else NegInfinity)
           else Finite (if 0 < x then of_int n * ulp else - (of_int n * ulp)))"

definition js_nat :: "nat \<Rightarrow> jsnum" where
  "js_nat n = fl (of_nat n)"

fun js_neg :: "jsnum \<Rightarrow> jsnum" where
  "js_neg (Finite a) = Finite (- a)"
| "js_neg PosInfinity = NegInfinity"
| "js_neg NegInfinity = PosInfinity"
| "js_neg NaN = NaN"

text \<open>\<^verbatim>\<open>Math.abs\<close>.\<close>

fun js_abs :: "jsnum \<Rightarrow> jsnum" where
  "js_abs (Finite a) = Finite \<bar>a\<bar>"
| "js_abs PosInfinity = PosInfinity"
| "js_abs NegInfinity = PosInfinity"
| "js_abs NaN = NaN"

fun js_sign :: "jsnum \<Rightarrow> int" where
  "js_sign (Finite a) = (if 0 < a then 1 else if a < 0 then - 1 else 0)"
| "js_sign PosInfinity = 1"
| "js_sign NegInfinity = - 1"
| "js_sign NaN = 0"

fun js_add :: "jsnum \<Rightarrow> jsnum \<Rightarrow> jsnum" where
  "js_add NaN b = NaN"
| "js_add a NaN = NaN"
| "js_add (Finite a) (Finite b) = fl (a + b)"
| "js_add PosInfinity NegInfinity = NaN"
| "js_add NegInfinity PosInfinity = NaN"
| "js_add PosInfinity b = PosInfinity"
| "js_add a PosInfinity = PosInfinity"
| "js_add NegInfinity b = NegInfinity"
| "js_add a NegInfinity = NegInfinity"

definition js_sub :: "jsnum \<Rightarrow> jsnum \<Rightarrow> jsnum" where
  "js_sub a b = js_add a (js_neg b)"

fun js_mul :: "jsnum \<Rightarrow> jsnum \<Rightarrow> jsnum" where
  "js_mul NaN b = NaN"
| "js_mul a NaN = NaN"
| "js_mul (Finite a) (Finite b) = fl (a * b)"
| "js_mul a b =
     (let s = js_sign a * js_sign b
      in if s = 0 then NaN else if 0 < s then PosInfinity else NegInfinity)"

fun js_div :: "jsnum \<Rightarrow> jsnum \<Rightarrow> jsnum" where
  "js_div NaN b = NaN"
| "js_div a NaN = NaN"
| "js_div (Finite a) (Finite b) =
     (if b = 0 then (if 0 < a then PosInfinity else if a < 0 then NegInfinity else NaN)
      else fl (a / b))"
| "js_div (Finite a) b = Finite 0"
| "js_div a (Finite b) = (if 0 \<le> b then a else js_neg a)"
| "js_div a b = NaN"

text \<open>The comparisons \<^verbatim>\<open><\<close> and \<^verbatim>\<open><=\<close>; \<^verbatim>\<open>a > b\<close> is \<open>js_lt b a\<close> and
  \<^verbatim>\<open>a >= b\<close> is \<open>js_le b a\<close>. A comparison with NaN is false.\<close>

fun js_lt :: "jsnum \<Rightarrow> jsnum \<Rightarrow> bool" where
  "js_lt NaN b = False"
| "js_lt a NaN = False"
| "js_lt (Finite a) (Finite b) = (a < b)"
| "js_lt PosInfinity b = False"
| "js_lt a PosInfinity = True"
| "js_lt NegInfinity NegInfinity = False"
| "js_lt NegInfinity b = True"
| "js_lt a NegInfinity = False"

fun js_le :: "jsnum \<Rightarrow> jsnum \<Rightarrow> bool" where
  "js_le NaN b = False"
| "js_le a NaN = False"
| "js_le (Finite a) (Finite b) = (a \<le> b)"
| "js_le a PosInfinity = True"
| "js_le NegInfinity b = True"
| "js_le a b = False"

definition js_gt :: "jsnum \<Rightarrow> jsnum \<Rightarrow> bool" where
  "js_gt a b = js_lt b a"

definition js_ge :: "jsnum \<Rightarrow> jsnum \<Rightarrow> bool" where
  "js_ge a b = js_le b a"

text \<open>\<^verbatim>\<open>Math.max\<close> of two numbers.\<close>

fun js_max :: "jsnum \<Rightarrow> jsnum \<Rightarrow> jsnum" where
  "js_max NaN b = NaN"
| "js_max a NaN = NaN"
| "js_max a b = (if js_lt a b then b else a)"

section \<open>Selfie page: stability counter, countdown and auto-capture\<close>

text \<open>
  Model of \<^verbatim>\<open>src/lib/pages/Selfie.svelte\<close>. The counters of the page are JavaScript
  numbers too, but every value that occurs in them is an integer or a quotient by 4,
  which a double holds exactly, so they are modelled as \<^typ>\<open>int\<close> and \<^typ>\<open>rat\<close>.
\<close>

record FaceDetectionResult =
  detected :: bool
  centered :: bool
  frontal :: bool
  properSize :: bool
  box :: "(jsnum \<times> jsnum \<times> jsnum \<times> jsnum) option"

text \<open>The calls the page makes to the outside, each logged with the value that
  \<^verbatim>\<open>isCapturing\<close> had when the call was made.\<close>

datatype call = StopDetectionLoop | GetDataUri | GoToNextStep

record selfie =
  cameraPhoto :: bool
  isDisabled :: bool
  faceDetected :: bool
  faceCentered :: bool
  faceFrontal :: bool
  faceProperSize :: bool
  faceReady :: bool
  stableFrames :: int
  countdown :: int
  stopDetectionLoop :: bool
  isCapturing :: bool
  calls :: "(call \<times> bool) list"

definition DETECTION_INTERVAL_MS :: rat where
  "DETECTION_INTERVAL_MS = 250"

definition COUNTDOWN_SECONDS :: rat where
  "COUNTDOWN_SECONDS = 5"

definition FRAMES_PER_SECOND :: rat where
  "FRAMES_PER_SECOND = 1000 / DETECTION_INTERVAL_MS"

definition REQUIRED_STABLE_FRAMES :: rat where
  "REQUIRED_STABLE_FRAMES = COUNTDOWN_SECONDS * FRAMES_PER_SECOND"

definition emit :: "call \<Rightarrow> selfie \<Rightarrow> selfie" where
  "emit c s = s\<lparr>calls := calls s @ [(c, isCapturing s)]\<rparr>"

text \<open>
  \<^verbatim>\<open>handleTakePhoto\<close>: the guard, then \<^verbatim>\<open>isCapturing = true\<close>, then the loop is
  stopped and the handle dropped, then the picture is taken, the flow moves on and the
  toggle is switched on.
\<close>

definition handleTakePhoto :: "selfie \<Rightarrow> selfie" where
  "handleTakePhoto s =
     (if \<not> cameraPhoto s \<or> isDisabled s \<or> isCapturing s then s
      else
        let s1 = s\<lparr>isCapturing := True\<rparr>;
            s2 = (if stopDetectionLoop s1
                  then (emit StopDetectionLoop s1)\<lparr>stopDetectionLoop := False\<rparr>
                  else s1);
            s3 = emit GetDataUri s2;
            s4 = emit GoToNextStep s3
        in s4\<lparr>isDisabled := True\<rparr>)"

definition framesRemaining :: "int \<Rightarrow> rat" where
  "framesRemaining n = REQUIRED_STABLE_FRAMES - of_int n"

definition secondsRemaining :: "int \<Rightarrow> int" where
  "secondsRemaining n = \<lceil>framesRemaining n / FRAMES_PER_SECOND\<rceil>"

text \<open>
  \<^verbatim>\<open>handleFaceDetectionResult\<close>. The four flags are assigned from the result, and the
  branch then tests \<^verbatim>\<open>faceReady\<close>. In the source \<^verbatim>\<open>faceReady\<close> is the reactive
  declaration \<^verbatim>\<open>$: faceReady = faceDetected && faceCentered && faceFrontal && faceProperSize\<close>.
  Svelte does not re-evaluate a reactive declaration at the assignment of a variable it
  depends on: the assignment marks the component dirty, and the declaration is run again
  when the component is flushed, in a microtask after the running function has returned.
  So the handler reads the field \<open>faceReady\<close> as the last flush left it, and
  \<open>flush\<close> below is that re-evaluation.
\<close>

definition handleFaceDetectionResult :: "selfie \<Rightarrow> FaceDetectionResult \<Rightarrow> selfie" where
  "handleFaceDetectionResult s result =
     (if isCapturing s then s
      else
        let s1 = s\<lparr>faceDetected := detected result, faceCentered := centered result,
                   faceFrontal := frontal result, faceProperSize := properSize result\<rparr>
        in if faceReady s1 then
             let s2 = s1\<lparr>stableFrames := stableFrames s1 + 1\<rparr>;
                 s3 = s2\<lparr>countdown := secondsRemaining (stableFrames s2)\<rparr>
             in if REQUIRED_STABLE_FRAMES \<le> of_int (stableFrames s3)
                then handleTakePhoto (s3\<lparr>countdown := 0\<rparr>)
                else s3
           else s1\<lparr>stableFrames := 0, countdown := 0\<rparr>)"

definition flush :: "selfie \<Rightarrow> selfie" where
  "flush s = s\<lparr>faceReady := (faceDetected s \<and> faceCentered s \<and> faceFrontal s \<and> faceProperSize s)\<rparr>"

text \<open>One result of the detection loop reaching the page: the handler runs, then the
  component is flushed before the next timer of the loop can fire.\<close>

definition deliver :: "selfie \<Rightarrow> FaceDetectionResult \<Rightarrow> selfie" where
  "deliver s result = flush (handleFaceDetectionResult s result)"

fun deliverAll :: "selfie \<Rightarrow> FaceDetectionResult list \<Rightarrow> selfie" where
  "deliverAll s [] = s"
| "deliverAll s (r # rs) = deliverAll (deliver s r) rs"

text \<open>The page once the camera has started and \<^verbatim>\<open>initFaceDetection\<close> has created the
  loop: the variables have their initial values, and the reactive declaration, run once
  when the component was set up, has made \<^verbatim>\<open>faceReady\<close> false.\<close>

definition mounted :: selfie where
  "mounted = \<lparr>cameraPhoto = True, isDisabled = False, faceDetected = False,
     faceCentered = False, faceFrontal = False, faceProperSize = False, faceReady = False,
     stableFrames = 0, countdown = 0, stopDetectionLoop = True, isCapturing = False,
     calls = []\<rparr>"

definition composite :: "FaceDetectionResult \<Rightarrow> bool" where
  "composite r = (detected r \<and> centered r \<and> frontal r \<and> properSize r)"

definition allTrue :: FaceDetectionResult where
  "allTrue = \<lparr>detected = True, centered = True, frontal = True, properSize = True,
     box = Some (Finite 0, Finite 0, Finite 1, Finite 1)\<rparr>"

definition notDetected :: FaceDetectionResult where
  "notDetected = \<lparr>detected = False, centered = False, frontal = False, properSize = False,
     box = None\<rparr>"

definition captures :: "selfie \<Rightarrow> nat" where
  "captures s = length (filter (\<lambda>c. fst c = GetDataUri) (calls s))"

text \<open>The spec's law for the counter: the length of the longest suffix of results that
  all satisfy the composite predicate.\<close>

fun trueRun :: "FaceDetectionResult list \<Rightarrow> nat" where
  "trueRun [] = 0"
| "trueRun (r # rs) = (if composite r then Suc (trueRun rs) else 0)"

definition longestTrueSuffix :: "FaceDetectionResult list \<Rightarrow> nat" where
  "longestTrueSuffix rs = trueRun (rev rs)"

text \<open>The spec's formulas for the countdown, in the spec's words: the required number
  of successes is \<open>ceil (stableDurationSeconds * 1000 / intervalMs)\<close>, and after
  \<open>consecutiveSuccesses\<close> consecutive successful polls the seconds remaining are
  \<open>ceil ((requiredSuccesses - consecutiveSuccesses) / framesPerSecond)\<close> with
  \<open>framesPerSecond = 1000 / intervalMs\<close>.\<close>

definition specRequiredSuccesses :: "rat \<Rightarrow> rat \<Rightarrow> int" where
  "specRequiredSuccesses stableDurationSeconds interval =
     \<lceil>stableDurationSeconds * 1000 / interval\<rceil>"

definition specSecondsRemaining :: "rat \<Rightarrow> rat \<Rightarrow> int \<Rightarrow> int" where
  "specSecondsRemaining stableDurationSeconds interval consecutiveSuccesses =
     \<lceil>(of_int (specRequiredSuccesses stableDurationSeconds interval)
          - of_int consecutiveSuccesses) / (1000 / interval)\<rceil>"

section \<open>The polling loop\<close>

text \<open>
  Model of \<^verbatim>\<open>createFaceDetectionLoop\<close> (\<^verbatim>\<open>services/face-detection/index.ts\<close>) and
  \<^verbatim>\<open>createDocumentDetectionLoop\<close> (\<^verbatim>\<open>services/document-detection/index.ts\<close>), which
  differ in the detector they call and in the default interval only.

  JavaScript runs one task at a time, and \<^verbatim>\<open>runDetection\<close> gives up control at its
  \<^verbatim>\<open>await\<close> only. The loop is therefore a state machine whose steps are the tasks:
  a timer of the loop fires (\<^verbatim>\<open>runDetection\<close> up to the \<^verbatim>\<open>await\<close>), the awaited
  detector call settles (\<^verbatim>\<open>runDetection\<close> after the \<^verbatim>\<open>await\<close>), the cleanup function
  is called, time passes. The record holds the variables of the closure
  (\<open>isRunning\<close>, \<open>timeoutId\<close>, and the arguments \<open>intervalMs\<close> and \<open>onResult\<close>),
  the timers of the loop that the browser still holds (identifier and due time), the
  detector calls that have not settled (their starting times), the clock, and what an
  observer sees: the times at which the detector was called, the results passed to
  \<open>onResult\<close>, and the state \<open>view\<close> that \<open>onResult\<close> mutates.

  \<open>onResult\<close> returns the new state of the view and whether it called the cleanup
  function of this loop while it ran (the selfie page does, through
  \<^verbatim>\<open>handleTakePhoto\<close>).
\<close>

record ('r, 'v) loop =
  isRunning :: bool
  timeoutId :: "nat option"
  intervalMs :: nat
  onResult :: "'r \<Rightarrow> 'v \<Rightarrow> 'v \<times> bool"
  timers :: "(nat \<times> nat) list"
  nextTimerId :: nat
  inflight :: "nat list"
  now :: nat
  invocations :: "nat list"
  delivered :: "'r list"
  view :: 'v

datatype 'r event =
    Resolves 'r
  | Rejects
  | TimerFires nat
  | Cleanup
  | Elapse nat

definition setTimeout :: "nat \<Rightarrow> ('r, 'v) loop \<Rightarrow> ('r, 'v) loop" where
  "setTimeout delay s =
     s\<lparr>timers := timers s @ [(nextTimerId s, now s + delay)],
       nextTimerId := Suc (nextTimerId s)\<rparr>"

definition clearTimeout :: "nat \<Rightarrow> ('r, 'v) loop \<Rightarrow> ('r, 'v) loop" where
  "clearTimeout i s = s\<lparr>timers := filter (\<lambda>t. fst t \<noteq> i) (timers s)\<rparr>"

text \<open>The returned cleanup function: \<^verbatim>\<open>isRunning = false; if (timeoutId) clearTimeout(timeoutId)\<close>.
  An identifier is truthy when it is not 0.\<close>

definition cleanup :: "('r, 'v) loop \<Rightarrow> ('r, 'v) loop" where
  "cleanup s =
     (let s1 = s\<lparr>isRunning := False\<rparr>
      in case timeoutId s1 of
           None \<Rightarrow> s1
         | Some i \<Rightarrow> if i \<noteq> 0 then clearTimeout i s1 else s1)"

text \<open>\<^verbatim>\<open>runDetection\<close> up to the \<^verbatim>\<open>await\<close>: the guard, then the detector is called.\<close>

definition runDetection :: "('r, 'v) loop \<Rightarrow> ('r, 'v) loop" where
  "runDetection s =
     (if \<not> isRunning s then s
      else s\<lparr>inflight := inflight s @ [now s], invocations := invocations s @ [now s]\<rparr>)"

text \<open>\<^verbatim>\<open>runDetection\<close> after the \<^verbatim>\<open>await\<close>: one test of \<open>isRunning\<close>, then the
  result is passed on and the next timer is set.\<close>

definition resume :: "'r \<Rightarrow> ('r, 'v) loop \<Rightarrow> ('r, 'v) loop" where
  "resume result s =
     (if isRunning s then
        let (v, stopped) = onResult s result (view s);
            s1 = s\<lparr>view := v, delivered := delivered s @ [result]\<rparr>;
            s2 = (if stopped then cleanup s1 else s1);
            i = nextTimerId s2
        in (setTimeout (intervalMs s2) s2)\<lparr>timeoutId := Some i\<rparr>
      else s)"

text \<open>
  One task. \<open>latency\<close> is the least time a detector call takes: the call that started
  at \<open>t\<close> cannot settle before \<open>t + latency\<close>, and a timer cannot fire before it is due.
  An event that cannot happen in the state leaves it as it is. A rejected detector call
  would end \<^verbatim>\<open>runDetection\<close> at the \<^verbatim>\<open>await\<close>.
\<close>

fun step :: "nat \<Rightarrow> ('r, 'v) loop \<Rightarrow> 'r event \<Rightarrow> ('r, 'v) loop" where
  "step latency s (Resolves result) =
     (case inflight s of
        [] \<Rightarrow> s
      | t # ts \<Rightarrow> if now s < t + latency then s else resume result (s\<lparr>inflight := ts\<rparr>))"
| "step latency s Rejects =
     (case inflight s of
        [] \<Rightarrow> s
      | t # ts \<Rightarrow> if now s < t + latency then s else s\<lparr>inflight := ts\<rparr>)"
| "step latency s (TimerFires i) =
     (case map_of (timers s) i of
        None \<Rightarrow> s
      | Some due \<Rightarrow> if now s < due then s else runDetection (clearTimeout i s))"
| "step latency s Cleanup = cleanup s"
| "step latency s (Elapse d) = s\<lparr>now := now s + d\<rparr>"

fun run :: "nat \<Rightarrow> ('r, 'v) loop \<Rightarrow> 'r event list \<Rightarrow> ('r, 'v) loop" where
  "run latency s [] = s"
| "run latency s (e # es) = run latency (step latency s e) es"

text \<open>Creating a loop at time \<open>t0\<close>: the closure is set up and \<^verbatim>\<open>runDetection()\<close> is
  called once.\<close>

definition startLoop :: "nat \<Rightarrow> ('r \<Rightarrow> 'v \<Rightarrow> 'v \<times> bool) \<Rightarrow> 'v \<Rightarrow> nat \<Rightarrow> ('r, 'v) loop" where
  "startLoop interval callback v t0 =
     runDetection \<lparr>isRunning = True, timeoutId = None, intervalMs = interval,
       onResult = callback, timers = [], nextTimerId = 1, inflight = [], now = t0,
       invocations = [], delivered = [], view = v\<rparr>"

definition createFaceDetectionLoop ::
  "('r \<Rightarrow> 'v \<Rightarrow> 'v \<times> bool) \<Rightarrow> nat option \<Rightarrow> 'v \<Rightarrow> nat \<Rightarrow> ('r, 'v) loop" where
  "createFaceDetectionLoop callback interval v t0 =
     startLoop (case interval of None \<Rightarrow> 250 | Some i \<Rightarrow> i) callback v t0"

definition createDocumentDetectionLoop ::
  "('r \<Rightarrow> 'v \<Rightarrow> 'v \<times> bool) \<Rightarrow> nat option \<Rightarrow> 'v \<Rightarrow> nat \<Rightarrow> ('r, 'v) loop" where
  "createDocumentDetectionLoop callback interval v t0 =
     startLoop (case interval of None \<Rightarrow> 500 | Some i \<Rightarrow> i) callback v t0"

text \<open>Consecutive times in a list are at least \<open>d\<close> apart.\<close>

fun spaced :: "nat \<Rightarrow> nat list \<Rightarrow> bool" where
  "spaced d (a # b # ts) = (a + d \<le> b \<and> spaced d (b # ts))"
| "spaced d ts = True"

text \<open>The selfie page as the view of its loop: the callback is
  \<^verbatim>\<open>handleFaceDetectionResult\<close>, and it has called the cleanup function when the handle
  \<^verbatim>\<open>stopDetectionLoop\<close> was dropped.\<close>

definition selfieOnResult :: "FaceDetectionResult \<Rightarrow> selfie \<Rightarrow> selfie \<times> bool" where
  "selfieOnResult result s =
     (let s' = handleFaceDetectionResult s result
      in (flush s', stopDetectionLoop s \<and> \<not> stopDetectionLoop s'))"

text \<open>What holds of a loop in every state it can reach, for a detector that takes at
  least \<open>latency\<close>: a call is outstanding or a timer is pending, never both and never
  two; the outstanding call is the last one made; the pending timer is the one
  \<open>timeoutId\<close> names, and it is due no earlier than the last call plus the latency plus
  the interval.\<close>

definition loop_inv :: "nat \<Rightarrow> ('r, 'v) loop \<Rightarrow> bool" where
  "loop_inv latency s \<longleftrightarrow>
     length (inflight s) + length (timers s) \<le> 1
     \<and> (\<forall>t \<in> set (invocations s). t \<le> now s)
     \<and> spaced (latency + intervalMs s) (invocations s)
     \<and> (\<forall>t \<in> set (inflight s). invocations s \<noteq> [] \<and> t = last (invocations s))
     \<and> (\<forall>p \<in> set (timers s). timeoutId s = Some (fst p) \<and> fst p \<noteq> 0
           \<and> (invocations s \<noteq> [] \<longrightarrow> last (invocations s) + (latency + intervalMs s) \<le> snd p))
     \<and> 0 < nextTimerId s"

text \<open>Two plain views for running the loop on examples: both append the result they are
  given to a list; the second calls the cleanup function as it does so.\<close>

definition collect :: "nat \<Rightarrow> nat list \<Rightarrow> nat list \<times> bool" where
  "collect result v = (v @ [result], False)"

definition collectAndStop :: "nat \<Rightarrow> nat list \<Rightarrow> nat list \<times> bool" where
  "collectAndStop result v = (v @ [result], True)"

section \<open>The detector services\<close>

text \<open>
  A rejected promise or a thrown exception is a value \<open>Inl e\<close>; \<^verbatim>\<open>try { ... } catch\<close>
  is \<open>try_catch\<close>.
\<close>

datatype exn = TypeError | Thrown string

definition try_catch :: "exn + 'a \<Rightarrow> (exn \<Rightarrow> exn + 'a) \<Rightarrow> exn + 'a" where
  "try_catch body handler = (case body of Inl e \<Rightarrow> handler e | Inr v \<Rightarrow> Inr v)"

definition and_then :: "exn + 'a \<Rightarrow> ('a \<Rightarrow> exn + 'b) \<Rightarrow> exn + 'b" where
  "and_then m f = (case m of Inl e \<Rightarrow> Inl e | Inr v \<Rightarrow> f v)"

datatype point = Point (xc: jsnum) (yc: jsnum)

record video =
  readyState :: nat
  videoWidth :: nat
  videoHeight :: nat

subsection \<open>\<^verbatim>\<open>services/face-detection/index.ts\<close>\<close>

text \<open>What \<^verbatim>\<open>detectSingleFace(...).withFaceLandmarks(true)\<close> resolves to: the box
  \<open>(x, y, width, height)\<close> and the landmark positions.\<close>

record detection =
  detection_box :: "jsnum \<times> jsnum \<times> jsnum \<times> jsnum"
  landmarks :: "point list"

text \<open>\<^verbatim>\<open>positions[i]\<close>, whose field is read next: reading a field of \<^verbatim>\<open>undefined\<close>
  throws a TypeError.\<close>

definition position :: "point list \<Rightarrow> nat \<Rightarrow> exn + point" where
  "position positions i = (if i < length positions then Inr (positions ! i) else Inl TypeError)"

definition isFaceFrontal :: "point list \<Rightarrow> jsnum \<Rightarrow> exn + bool" where
  "isFaceFrontal positions tolerance =
     and_then (position positions 36) (\<lambda>p36.
     and_then (position positions 39) (\<lambda>p39.
     and_then (position positions 42) (\<lambda>p42.
     and_then (position positions 45) (\<lambda>p45.
     and_then (position positions 30) (\<lambda>noseTip.
     and_then (position positions 0) (\<lambda>leftContour.
     and_then (position positions 16) (\<lambda>rightContour.
       let leftEyeCenterX = js_div (js_add (xc p36) (xc p39)) (Finite 2);
           rightEyeCenterX = js_div (js_add (xc p42) (xc p45)) (Finite 2);
           eyeMidpointX = js_div (js_add leftEyeCenterX rightEyeCenterX) (Finite 2);
           eyeDistance = js_abs (js_sub rightEyeCenterX leftEyeCenterX);
           noseOffsetFromCenter = js_abs (js_sub (xc noseTip) eyeMidpointX);
           noseRatio = js_div noseOffsetFromCenter eyeDistance;
           leftDistance = js_abs (js_sub (xc noseTip) (xc leftContour));
           rightDistance = js_abs (js_sub (xc rightContour) (xc noseTip));
           contourRatio = js_div (js_abs (js_sub leftDistance rightDistance))
                                 (js_add leftDistance rightDistance);
           isCentered = js_lt noseRatio tolerance;
           isSymmetric = js_lt contourRatio tolerance
       in Inr (isCentered \<and> isSymmetric))))))))"

text \<open>\<^verbatim>\<open>detectFace\<close>. \<open>modelsLoaded\<close> is the module's flag, \<open>detectSingleFace\<close> the
  library call with its landmarks; the default of \<open>centerTolerance\<close> is the literal
  0.08, that is \<open>fl (8 / 100)\<close>, and \<^verbatim>\<open>isFaceFrontal\<close> is called with its default
  tolerance 0.15.\<close>

definition detectFace ::
  "bool \<Rightarrow> (video \<Rightarrow> exn + detection option) \<Rightarrow> video \<Rightarrow> jsnum \<Rightarrow> exn + FaceDetectionResult" where
  "detectFace modelsLoaded detectSingleFace v centerTolerance =
     (if \<not> modelsLoaded then Inr notDetected
      else if readyState v \<noteq> 4 then Inr notDetected
      else
        try_catch
          (and_then (detectSingleFace v) (\<lambda>found.
             case found of
               None \<Rightarrow> Inr notDetected
             | Some d \<Rightarrow>
                 let (x, y, width, height) = detection_box d;
                     overlayWidth = js_mul (js_nat (videoWidth v)) (fl (8 / 10));
                     overlayHeight = js_mul overlayWidth (js_div (Finite 4) (Finite 3));
                     overlayCenterX = js_div (js_nat (videoWidth v)) (Finite 2);
                     overlayCenterY = js_div (js_nat (videoHeight v)) (Finite 2);
                     faceCenterX = js_add x (js_div width (Finite 2));
                     faceCenterY = js_add y (js_div height (Finite 2));
                     xOffset = js_div (js_abs (js_sub faceCenterX overlayCenterX)) overlayWidth;
                     yOffset = js_div (js_abs (js_sub faceCenterY overlayCenterY)) overlayHeight;
                     isCentered = (js_lt xOffset centerTolerance \<and> js_lt yOffset centerTolerance)
                 in and_then (isFaceFrontal (landmarks d) (fl (15 / 100))) (\<lambda>isFrontal.
                      let faceToOverlayRatio = js_div width overlayWidth;
                          minRatio = fl (35 / 100);
                          maxRatio = fl (85 / 100);
                          isProperSize = (js_ge faceToOverlayRatio minRatio
                                          \<and> js_le faceToOverlayRatio maxRatio)
                      in Inr \<lparr>detected = True, centered = isCentered, frontal = isFrontal,
                              properSize = isProperSize, box = Some (x, y, width, height)\<rparr>)))
          (\<lambda>error. Inr notDetected))"

text \<open>The task of the loop that a settled detector call gives rise to.\<close>

definition settle :: "exn + 'r \<Rightarrow> 'r event" where
  "settle outcome = (case outcome of Inl e \<Rightarrow> Rejects | Inr result \<Rightarrow> Resolves result)"

subsection \<open>\<^verbatim>\<open>services/document-detection/index.ts\<close>\<close>

record corners =
  topLeft :: point
  topRight :: point
  bottomRight :: point
  bottomLeft :: point

record DocumentDetectionResult =
  detected :: bool
  corners :: "corners option"
  confidence :: bool

text \<open>The result of \<^verbatim>\<open>scanDocument\<close> (declared in the typings of \<^verbatim>\<open>scanic\<close>):
  the fields that \<^verbatim>\<open>detectDocument\<close> reads.\<close>

record ScanDocumentResult =
  success :: bool
  corners :: "corners option"

datatype source =
    HTMLVideoElement video
  | HTMLCanvasElement nat nat
  | HTMLImageElement nat nat

definition neutralDocument :: DocumentDetectionResult where
  "neutralDocument = \<lparr>detected = False, corners = None, confidence = False\<rparr>"

definition videoToCanvas :: "video \<Rightarrow> source" where
  "videoToCanvas v = HTMLCanvasElement (videoWidth v) (videoHeight v)"

text \<open>\<^verbatim>\<open>'videoWidth' in source ? source.videoWidth : source.width\<close>, and the same for
  the height.\<close>

fun sourceWidth :: "source \<Rightarrow> jsnum" where
  "sourceWidth (HTMLVideoElement v) = js_nat (videoWidth v)"
| "sourceWidth (HTMLCanvasElement w h) = js_nat w"
| "sourceWidth (HTMLImageElement w h) = js_nat w"

fun sourceHeight :: "source \<Rightarrow> jsnum" where
  "sourceHeight (HTMLVideoElement v) = js_nat (videoHeight v)"
| "sourceHeight (HTMLCanvasElement w h) = js_nat h"
| "sourceHeight (HTMLImageElement w h) = js_nat h"

text \<open>The constants \<^verbatim>\<open>docWidth\<close> and \<^verbatim>\<open>docHeight\<close> of \<^verbatim>\<open>detectDocument\<close>.\<close>

definition docWidth :: "corners \<Rightarrow> jsnum" where
  "docWidth c =
     js_max (js_abs (js_sub (xc (topRight c)) (xc (topLeft c))))
            (js_abs (js_sub (xc (bottomRight c)) (xc (bottomLeft c))))"

definition docHeight :: "corners \<Rightarrow> jsnum" where
  "docHeight c =
     js_max (js_abs (js_sub (yc (bottomLeft c)) (yc (topLeft c))))
            (js_abs (js_sub (yc (bottomRight c)) (yc (topRight c))))"

text \<open>The part of \<^verbatim>\<open>detectDocument\<close> that follows the scan; 0.15 is the double
  \<open>fl (15 / 100)\<close>.\<close>

definition measureDocument :: "source \<Rightarrow> ScanDocumentResult \<Rightarrow> DocumentDetectionResult" where
  "measureDocument src result =
     (if \<not> success result then neutralDocument
      else case ScanDocumentResult.corners result of
        None \<Rightarrow> neutralDocument
      | Some c \<Rightarrow>
          let docArea = js_mul (docWidth c) (docHeight c);
              frameArea = js_mul (sourceWidth src) (sourceHeight src);
              isConfident = js_gt (js_div docArea frameArea) (fl (15 / 100))
          in \<lparr>detected = True, corners = Some c, confidence = isConfident\<rparr>)"

text \<open>\<^verbatim>\<open>detectDocument\<close>, with \<^verbatim>\<open>scanDocument\<close> as \<open>scan\<close>. A video that is not
  ready returns from inside the \<^verbatim>\<open>try\<close> before the scan.\<close>

definition detectDocument ::
  "(source \<Rightarrow> exn + ScanDocumentResult) \<Rightarrow> source \<Rightarrow> exn + DocumentDetectionResult" where
  "detectDocument scan src =
     try_catch
       (case src of
          HTMLVideoElement v \<Rightarrow>
            if readyState v \<noteq> 4 then Inr neutralDocument
            else and_then (scan (videoToCanvas v)) (\<lambda>result. Inr (measureDocument src result))
        | _ \<Rightarrow> and_then (scan src) (\<lambda>result. Inr (measureDocument src result)))
       (\<lambda>error. Inr neutralDocument)"

text \<open>The element that \<^verbatim>\<open>detectDocument\<close> hands to the scanner, if it scans.\<close>

fun processableSource :: "source \<Rightarrow> source option" where
  "processableSource (HTMLVideoElement v) =
     (if readyState v \<noteq> 4 then None else Some (videoToCanvas v))"
| "processableSource src = Some src"

text \<open>
  \<^verbatim>\<open>validateDocumentImage\<close>: every call makes a promise and an image element of its
  own and sets the source of the image; when the image has loaded, \<^verbatim>\<open>detectDocument\<close>
  runs on it and its result resolves the promise, and when the image fails to load the
  promise resolves to the neutral result. \<open>jobs\<close> are the calls whose promise is not
  resolved yet, \<open>passes\<close> counts the runs of \<^verbatim>\<open>detectDocument\<close>, \<open>resolved\<close> collects
  what the promises resolved to.
\<close>

record validator =
  jobs :: "string list"
  passes :: nat
  resolved :: "(string \<times> DocumentDetectionResult) list"

definition validateDocumentImage :: "string \<Rightarrow> validator \<Rightarrow> validator" where
  "validateDocumentImage base64Image s = s\<lparr>jobs := jobs s @ [base64Image]\<rparr>"

text \<open>The oldest pending image loads as an element of the given size.\<close>

definition onload ::
  "(source \<Rightarrow> exn + ScanDocumentResult) \<Rightarrow> nat \<Rightarrow> nat \<Rightarrow> validator
     \<Rightarrow> validator \<times> DocumentDetectionResult option" where
  "onload scan w h s =
     (case jobs s of
        [] \<Rightarrow> (s, None)
      | b # bs \<Rightarrow>
          (case detectDocument scan (HTMLImageElement w h) of
             Inl e \<Rightarrow> (s\<lparr>jobs := bs, passes := Suc (passes s)\<rparr>, None)
           | Inr result \<Rightarrow>
               (s\<lparr>jobs := bs, passes := Suc (passes s), resolved := resolved s @ [(b, result)]\<rparr>,
                Some result)))"

definition onerror :: "validator \<Rightarrow> validator \<times> DocumentDetectionResult option" where
  "onerror s =
     (case jobs s of
        [] \<Rightarrow> (s, None)
      | b # bs \<Rightarrow> (s\<lparr>jobs := bs, resolved := resolved s @ [(b, neutralDocument)]\<rparr>,
                  Some neutralDocument))"

definition idle :: validator where
  "idle = \<lparr>jobs = [], passes = 0, resolved = []\<rparr>"

section \<open>The document pages\<close>

subsection \<open>\<^verbatim>\<open>pages/CheckDocument.svelte\<close>\<close>

record checkDocument =
  image :: string
  isValidating :: bool
  validationResult :: "DocumentDetectionResult option"
  service :: validator

text \<open>The reactive block
  \<^verbatim>\<open>$: if (image && !validationResult && !isValidating) { isValidating = true; validateDocumentImage(image).then(...) }\<close>.\<close>

definition validateReactive :: "checkDocument \<Rightarrow> checkDocument" where
  "validateReactive s =
     (if image s \<noteq> [] \<and> validationResult s = None \<and> \<not> isValidating s
      then s\<lparr>isValidating := True, service := validateDocumentImage (image s) (service s)\<rparr>
      else s)"

text \<open>The callback given to \<^verbatim>\<open>then\<close>.\<close>

definition validated :: "DocumentDetectionResult \<Rightarrow> checkDocument \<Rightarrow> checkDocument" where
  "validated result s = s\<lparr>validationResult := Some result, isValidating := False\<rparr>"

datatype 'a pageEvent =
    ImageChanged string
  | Flush
  | ImageLoads 'a nat nat
  | ImageFails

text \<open>One task of the page. The store gives the page another image, the page is flushed
  (the reactive block runs), the pending image loads (the scanner behaves as the given
  \<open>scan\<close>, the image has the given size) or fails to load; a promise that resolves runs
  the callback.\<close>

fun pageStep ::
  "checkDocument \<Rightarrow> (source \<Rightarrow> exn + ScanDocumentResult) pageEvent \<Rightarrow> checkDocument" where
  "pageStep s (ImageChanged b) = s\<lparr>image := b\<rparr>"
| "pageStep s Flush = validateReactive s"
| "pageStep s (ImageLoads scan w h) =
     (case onload scan w h (service s) of
        (v, None) \<Rightarrow> s\<lparr>service := v\<rparr>
      | (v, Some result) \<Rightarrow> validated result (s\<lparr>service := v\<rparr>))"
| "pageStep s ImageFails =
     (case onerror (service s) of
        (v, None) \<Rightarrow> s\<lparr>service := v\<rparr>
      | (v, Some result) \<Rightarrow> validated result (s\<lparr>service := v\<rparr>))"

fun pageRun ::
  "checkDocument \<Rightarrow> (source \<Rightarrow> exn + ScanDocumentResult) pageEvent list \<Rightarrow> checkDocument" where
  "pageRun s [] = s"
| "pageRun s (e # es) = pageRun (pageStep s e) es"

definition checkDocumentMounted :: checkDocument where
  "checkDocumentMounted =
     \<lparr>image = [], isValidating = False, validationResult = None, service = idle\<rparr>"

text \<open>What holds of the page in every state it can reach: at most one validation is
  pending and at most one detection pass has run, \<^verbatim>\<open>isValidating\<close> is set exactly
  while a validation is pending, and a result is stored once a pass has run.\<close>

definition pageInv :: "checkDocument \<Rightarrow> bool" where
  "pageInv s \<longleftrightarrow>
     passes (service s) + length (jobs (service s)) \<le> 1
     \<and> (isValidating s \<longleftrightarrow> jobs (service s) \<noteq> [])
     \<and> (jobs (service s) \<noteq> [] \<longrightarrow> validationResult s = None)
     \<and> (0 < passes (service s) \<longrightarrow> validationResult s \<noteq> None)"

text \<open>The feedback block of the template.\<close>

datatype validationMessage = Validating | Success | Warning | Error

definition validationFeedback ::
  "bool \<Rightarrow> DocumentDetectionResult option \<Rightarrow> validationMessage option" where
  "validationFeedback validating shown =
     (if validating then Some Validating
      else case shown of
             None \<Rightarrow> None
           | Some r \<Rightarrow>
               if detected r \<and> confidence r then Some Success
               else if detected r then Some Warning
               else Some Error)"

subsection \<open>\<^verbatim>\<open>pages/DocumentPhoto.svelte\<close>\<close>

datatype indicator = DocumentDetected | MoveCloser | PositionDocument

text \<open>The detection indicator, shown once the stream is there.\<close>

definition detectionIndicator :: "bool \<Rightarrow> DocumentDetectionResult \<Rightarrow> indicator option" where
  "detectionIndicator streamReady r =
     (if streamReady then
        Some (if detected r \<and> confidence r then DocumentDetected
              else if detected r then MoveCloser
              else PositionDocument)
      else None)"

text \<open>\<^verbatim>\<open>isDisabled={$isDisabled || !documentDetectionResult.detected}\<close> of the camera
  button.\<close>

definition cameraButtonDisabled :: "bool \<Rightarrow> DocumentDetectionResult \<Rightarrow> bool" where
  "cameraButtonDisabled toggle r = (toggle \<or> \<not> detected r)"

text \<open>The composite predicate of the document flow.\<close>

definition documentComposite :: "DocumentDetectionResult \<Rightarrow> bool" where
  "documentComposite r = (detected r \<and> confidence r)"

section \<open>Facts about the selfie page\<close>

lemmas consts_defs = REQUIRED_STABLE_FRAMES_def COUNTDOWN_SECONDS_def FRAMES_PER_SECOND_def
  DETECTION_INTERVAL_MS_def

lemma REQUIRED_STABLE_FRAMES_20: "REQUIRED_STABLE_FRAMES = 20"
  by (simp add: consts_defs)

lemma FRAMES_PER_SECOND_4: "FRAMES_PER_SECOND = 4"
  by (simp add: consts_defs)

lemma handleTakePhoto_fields:
  "stableFrames (handleTakePhoto s) = stableFrames s"
  "countdown (handleTakePhoto s) = countdown s"
  "faceReady (handleTakePhoto s) = faceReady s"
  "faceDetected (handleTakePhoto s) = faceDetected s"
  "faceCentered (handleTakePhoto s) = faceCentered s"
  "faceFrontal (handleTakePhoto s) = faceFrontal s"
  "faceProperSize (handleTakePhoto s) = faceProperSize s"
  by (simp_all add: handleTakePhoto_def emit_def Let_def)

lemma handle_while_capturing:
  "isCapturing s \<Longrightarrow> handleFaceDetectionResult s r = s"
  by (simp add: handleFaceDetectionResult_def)

lemma handleTakePhoto_while_capturing:
  "isCapturing s \<Longrightarrow> handleTakePhoto s = s"
  by (simp add: handleTakePhoto_def)

lemma handleTakePhoto_fires:
  "cameraPhoto s \<Longrightarrow> \<not> isDisabled s \<Longrightarrow> \<not> isCapturing s \<Longrightarrow> stopDetectionLoop s \<Longrightarrow>
   calls (handleTakePhoto s) =
     calls s @ [(StopDetectionLoop, True), (GetDataUri, True), (GoToNextStep, True)]
   \<and> isCapturing (handleTakePhoto s) \<and> \<not> stopDetectionLoop (handleTakePhoto s)"
  by (simp add: handleTakePhoto_def emit_def Let_def)

lemma deliverAll_snoc: "deliverAll s (rs @ [r]) = deliver (deliverAll s rs) r"
  by (induction rs arbitrary: s) simp_all

lemma deliver_capturing_back: "\<not> isCapturing (deliver s r) \<Longrightarrow> \<not> isCapturing s"
  by (auto simp: deliver_def flush_def handle_while_capturing)

lemma longestTrueSuffix_snoc:
  "longestTrueSuffix (rs @ [r]) = (if composite r then Suc (longestTrueSuffix rs) else 0)"
  by (simp add: longestTrueSuffix_def)

lemma deliver_step:
  assumes "\<not> isCapturing (deliver s r)"
  shows "stableFrames (deliver s r) = (if faceReady s then stableFrames s + 1 else 0)"
    and "faceReady (deliver s r) = composite r"
    and "cameraPhoto (deliver s r) = cameraPhoto s"
    and "isDisabled (deliver s r) = isDisabled s"
    and "stopDetectionLoop (deliver s r) = stopDetectionLoop s"
    and "calls (deliver s r) = calls s"
  using assms
  by (auto simp: deliver_def flush_def handleFaceDetectionResult_def Let_def composite_def
      handleTakePhoto_def emit_def split: if_splits)

text \<open>What the counter holds before a capture: the run of good results that ended at the
  result before the current one.\<close>

lemma stableFrames_lags:
  "\<not> isCapturing (deliverAll mounted rs) \<Longrightarrow>
     stableFrames (deliverAll mounted rs) = int (longestTrueSuffix (butlast rs))
   \<and> faceReady (deliverAll mounted rs) = (rs \<noteq> [] \<and> composite (last rs))
   \<and> calls (deliverAll mounted rs) = []"
proof (induction rs rule: rev_induct)
  case Nil
  then show ?case by (simp add: mounted_def longestTrueSuffix_def)
next
  case (snoc r rs)
  let ?s = "deliverAll mounted rs"
  from snoc.prems have nc': "\<not> isCapturing (deliver ?s r)"
    by (simp add: deliverAll_snoc)
  then have nc: "\<not> isCapturing ?s" by (rule deliver_capturing_back)
  note ih = snoc.IH [OF nc]
  have lts: "int (longestTrueSuffix rs) = (if faceReady ?s then stableFrames ?s + 1 else 0)"
  proof (cases rs rule: rev_cases)
    case Nil
    then show ?thesis using ih by (simp add: longestTrueSuffix_def)
  next
    case (snoc ys y)
    then show ?thesis using ih by (simp add: longestTrueSuffix_snoc)
  qed
  show ?case
    using deliver_step [OF nc'] ih lts by (simp add: deliverAll_snoc)
qed

lemma captures_at_most_once_inv:
  "captures (deliverAll mounted rs) = (if isCapturing (deliverAll mounted rs) then 1 else 0)
   \<and> (\<not> isCapturing (deliverAll mounted rs) \<longrightarrow>
        cameraPhoto (deliverAll mounted rs) \<and> \<not> isDisabled (deliverAll mounted rs)
        \<and> stopDetectionLoop (deliverAll mounted rs))"
proof (induction rs rule: rev_induct)
  case Nil
  then show ?case by (simp add: mounted_def captures_def)
next
  case (snoc r rs)
  let ?s = "deliverAll mounted rs"
  show ?case
  proof (cases "isCapturing ?s")
    case True
    then show ?thesis using snoc
      by (simp add: deliverAll_snoc deliver_def handle_while_capturing flush_def captures_def)
  next
    case False
    then show ?thesis using snoc
      by (auto simp: deliverAll_snoc deliver_def flush_def handleFaceDetectionResult_def Let_def
          handleTakePhoto_def emit_def captures_def split: if_splits)
  qed
qed


text \<open>The countdown as a function of the counter: when the handler counts a poll, it
  displays \<open>ceil ((required - counter) / framesPerSecond)\<close> for the counter it has just
  incremented.\<close>

lemma countdown_of_counter:
  "REQUIRED_STABLE_FRAMES = of_int \<lceil>COUNTDOWN_SECONDS * 1000 / DETECTION_INTERVAL_MS\<rceil>
   \<and> REQUIRED_STABLE_FRAMES = 20
   \<and> FRAMES_PER_SECOND = 1000 / DETECTION_INTERVAL_MS
   \<and> (\<not> isCapturing s \<and> faceReady s \<and> stableFrames s + 1 \<le> 20 \<longrightarrow>
        stableFrames (handleFaceDetectionResult s r) = stableFrames s + 1
        \<and> countdown (handleFaceDetectionResult s r)
            = \<lceil>(REQUIRED_STABLE_FRAMES - of_int (stableFrames s + 1)) / FRAMES_PER_SECOND\<rceil>)
   \<and> (\<not> isCapturing s \<and> faceReady s \<and> stableFrames s + 1 = 15 \<longrightarrow>
        countdown (handleFaceDetectionResult s r) = 2)"
proof -
  have a: "REQUIRED_STABLE_FRAMES = of_int \<lceil>COUNTDOWN_SECONDS * 1000 / DETECTION_INTERVAL_MS\<rceil>"
    by (simp add: consts_defs)
  have b: "FRAMES_PER_SECOND = 1000 / DETECTION_INTERVAL_MS"
    by (simp add: FRAMES_PER_SECOND_def)
  have c: "stableFrames (handleFaceDetectionResult s r) = stableFrames s + 1
        \<and> countdown (handleFaceDetectionResult s r)
            = \<lceil>(REQUIRED_STABLE_FRAMES - of_int (stableFrames s + 1)) / FRAMES_PER_SECOND\<rceil>"
    if "\<not> isCapturing s" "faceReady s" "stableFrames s + 1 \<le> 20"
  proof (cases "stableFrames s + 1 = 20")
    case True
    then show ?thesis using that
      by (simp add: handleFaceDetectionResult_def Let_def handleTakePhoto_fields
          REQUIRED_STABLE_FRAMES_20 FRAMES_PER_SECOND_4)
  next
    case False
    with that have "stableFrames s + 1 < 20" by simp
    then show ?thesis using that
      by (simp add: handleFaceDetectionResult_def Let_def secondsRemaining_def
          framesRemaining_def REQUIRED_STABLE_FRAMES_20 FRAMES_PER_SECOND_4)
  qed
  have d: "countdown (handleFaceDetectionResult s r) = 2"
    if "\<not> isCapturing s" "faceReady s" "stableFrames s + 1 = 15"
  proof -
    have "countdown (handleFaceDetectionResult s r)
            = \<lceil>(REQUIRED_STABLE_FRAMES - of_int (15::int)) / FRAMES_PER_SECOND\<rceil>"
      using c that by simp
    also have "\<dots> = 2"
      by (simp add: REQUIRED_STABLE_FRAMES_20 FRAMES_PER_SECOND_4 ceiling_eq_iff)
    finally show ?thesis .
  qed
  show ?thesis using a b c d REQUIRED_STABLE_FRAMES_20 by blast
qed

text \<open>
  Claim C1. With 20 required successes and a stream of results that all satisfy the
  composite predicate, the capture is claimed to fire on the 20th result. The handler
  tests the value of \<^verbatim>\<open>faceReady\<close> that the flush after the previous result
  computed, so the first result counts nothing: after 20 results the counter is 19 and
  nothing has fired; the capture fires on the 21st result, with \<^verbatim>\<open>isCapturing\<close>
  already set at each outside call, and later results change nothing.
\<close>

theorem selfie_capture_fires_on_21st_result:
  "(let s = deliverAll mounted (replicate 20 allTrue) in
      stableFrames s = 19 \<and> \<not> isCapturing s \<and> captures s = 0 \<and> calls s = [])
   \<and> (let s = deliverAll mounted (replicate 21 allTrue) in
      stableFrames s = 20 \<and> isCapturing s \<and> captures s = 1
      \<and> calls s = [(StopDetectionLoop, True), (GetDataUri, True), (GoToNextStep, True)])
   \<and> deliverAll mounted (replicate 30 allTrue) = deliverAll mounted (replicate 21 allTrue)"
  by code_simp

text \<open>
  Claim C2. The counter is claimed to equal the length of the longest suffix of results
  that satisfy the composite predicate. After the single good result the longest such
  suffix has length 1 and the counter is 0; in the stream good, good, bad, good the
  counter is 2 after the bad result (it should be 0) and 0 after the good result that
  follows it (it should be 1).
\<close>

theorem stableFrames_is_not_longest_true_suffix:
  "stableFrames (deliverAll mounted [allTrue]) = 0
   \<and> longestTrueSuffix [allTrue] = 1
   \<and> stableFrames (deliverAll mounted [allTrue, allTrue, notDetected]) = 2
   \<and> longestTrueSuffix [allTrue, allTrue, notDetected] = 0
   \<and> stableFrames (deliverAll mounted [allTrue, allTrue, notDetected, allTrue]) = 0
   \<and> longestTrueSuffix [allTrue, allTrue, notDetected, allTrue] = 1"
  by code_simp

text \<open>
  Claim C9. The required number of successes is the spec's
  \<open>ceil (stableDurationSeconds * 1000 / intervalMs) = 20\<close>, but the countdown does not
  follow the spec's formula in the number of consecutive successes: the counter that the
  handler subtracts lags one result behind (claims C1 and C2). After 16 consecutive good
  results the page displays 2 where the formula gives 1, and after the first good result
  it displays 0 where the formula gives 5; after 15 the two agree on 2, the counter being
  14.
\<close>

theorem countdown_lags_consecutive_successes:
  "specRequiredSuccesses 5 250 = 20
   \<and> REQUIRED_STABLE_FRAMES = 20
   \<and> stableFrames (deliverAll mounted (replicate 16 allTrue)) = 15
   \<and> countdown (deliverAll mounted (replicate 16 allTrue)) = 2
   \<and> specSecondsRemaining 5 250 16 = 1
   \<and> stableFrames (deliverAll mounted [allTrue]) = 0
   \<and> countdown (deliverAll mounted [allTrue]) = 0
   \<and> specSecondsRemaining 5 250 1 = 5
   \<and> stableFrames (deliverAll mounted (replicate 15 allTrue)) = 14
   \<and> countdown (deliverAll mounted (replicate 15 allTrue)) = 2
   \<and> specSecondsRemaining 5 250 15 = 2"
  by code_simp

section \<open>Facts about the polling loop\<close>

lemma spaced_snoc:
  "spaced d (ts @ [t]) = (spaced d ts \<and> (ts = [] \<or> last ts + d \<le> t))"
  by (induction d ts rule: spaced.induct) auto

lemma spaced_mono: "d' \<le> d \<Longrightarrow> spaced d ts \<Longrightarrow> spaced d' ts"
  by (induction d ts rule: spaced.induct) auto

lemma intervalMs_step [simp]: "intervalMs (step latency s e) = intervalMs s"
  by (cases e)
    (auto simp: resume_def cleanup_def clearTimeout_def setTimeout_def runDetection_def Let_def
      split: list.splits option.splits prod.splits)

lemma intervalMs_run [simp]: "intervalMs (run latency s es) = intervalMs s"
  by (induction es arbitrary: s) simp_all

lemma intervalMs_startLoop [simp]: "intervalMs (startLoop interval callback v t0) = interval"
  by (simp add: startLoop_def runDetection_def)

lemma loop_inv_startLoop: "loop_inv latency (startLoop interval callback v t0)"
  by (simp add: loop_inv_def startLoop_def runDetection_def)

lemma loop_inv_Elapse:
  assumes "loop_inv latency s"
  shows "loop_inv latency (step latency s (Elapse d))"
  using assms by (auto simp: loop_inv_def intro: trans_le_add1)

lemma loop_inv_cleanup:
  assumes "loop_inv latency s"
  shows "loop_inv latency (cleanup s)"
proof (cases "timers s")
  case Nil
  with assms show ?thesis
    by (auto simp: loop_inv_def cleanup_def clearTimeout_def Let_def split: option.splits)
next
  case (Cons p ps)
  with assms have "ps = []" "inflight s = []" by (auto simp: loop_inv_def)
  with Cons assms show ?thesis
    by (auto simp: loop_inv_def cleanup_def clearTimeout_def Let_def split: option.splits)
qed

text \<open>A cleanup that is called between two tasks of the loop leaves no timer behind.\<close>

lemma timers_cleanup_reachable:
  assumes "loop_inv latency s"
  shows "timers (cleanup s) = []"
proof (cases "timers s")
  case Nil
  then show ?thesis
    by (auto simp: cleanup_def clearTimeout_def Let_def split: option.splits)
next
  case (Cons p ps)
  with assms have "ps = []" "timeoutId s = Some (fst p)" "fst p \<noteq> 0"
    by (auto simp: loop_inv_def)
  with Cons show ?thesis
    by (simp add: cleanup_def clearTimeout_def Let_def)
qed

lemma loop_inv_Rejects:
  assumes "loop_inv latency s"
  shows "loop_inv latency (step latency s Rejects)"
  using assms by (auto simp: loop_inv_def split: list.splits)

lemma loop_inv_TimerFires:
  assumes "loop_inv latency s"
  shows "loop_inv latency (step latency s (TimerFires i))"
proof (cases "map_of (timers s) i")
  case None
  with assms show ?thesis by simp
next
  case (Some due)
  then obtain p ps where ts: "timers s = p # ps" by (cases "timers s") auto
  with assms have e: "ps = []" "inflight s = []" by (auto simp: loop_inv_def)
  with ts Some have p: "p = (i, due)" by (cases p) (auto split: if_splits)
  show ?thesis
  proof (cases "now s < due")
    case True
    with Some assms show ?thesis by simp
  next
    case False
    with Some assms ts e p show ?thesis
      by (auto simp: loop_inv_def runDetection_def clearTimeout_def spaced_snoc)
  qed
qed

lemma loop_inv_Resolves:
  assumes "loop_inv latency s"
  shows "loop_inv latency (step latency s (Resolves r))"
proof (cases "inflight s")
  case Nil
  with assms show ?thesis by simp
next
  case (Cons t ts)
  with assms have e: "ts = []" "timers s = []" by (auto simp: loop_inv_def)
  show ?thesis
  proof (cases "now s < t + latency")
    case True
    with Cons assms show ?thesis by simp
  next
    case False
    with Cons assms e show ?thesis
      by (auto simp: loop_inv_def resume_def cleanup_def clearTimeout_def setTimeout_def
          Let_def split: prod.splits option.splits)
  qed
qed

lemma loop_inv_step:
  "loop_inv latency s \<Longrightarrow> loop_inv latency (step latency s e)"
proof (cases e)
  case (Resolves r)
  assume "loop_inv latency s"
  then show ?thesis unfolding Resolves by (rule loop_inv_Resolves)
next
  case Rejects
  assume "loop_inv latency s"
  then show ?thesis unfolding Rejects by (rule loop_inv_Rejects)
next
  case (TimerFires i)
  assume "loop_inv latency s"
  then show ?thesis unfolding TimerFires by (rule loop_inv_TimerFires)
next
  case Cleanup
  assume "loop_inv latency s"
  then show ?thesis unfolding Cleanup by (simp add: loop_inv_cleanup)
next
  case (Elapse d)
  assume "loop_inv latency s"
  then show ?thesis unfolding Elapse by (rule loop_inv_Elapse)
qed

lemma loop_inv_run:
  "loop_inv latency s \<Longrightarrow> loop_inv latency (run latency s es)"
  by (induction es arbitrary: s) (simp_all add: loop_inv_step)

lemma run_append: "run latency s (es @ fs) = run latency (run latency s es) fs"
  by (induction es arbitrary: s) simp_all

lemma startLoop_serialized:
  "length (inflight (run latency (startLoop interval callback v t0) es))
     + length (timers (run latency (startLoop interval callback v t0) es)) \<le> 1
   \<and> spaced (latency + interval) (invocations (run latency (startLoop interval callback v t0) es))"
  using loop_inv_run [OF loop_inv_startLoop, of latency interval callback v t0 es]
  by (simp add: loop_inv_def)

lemma stopped_step:
  assumes "\<not> isRunning s"
  shows "\<not> isRunning (step latency s e) \<and> view (step latency s e) = view s
    \<and> delivered (step latency s e) = delivered s
    \<and> invocations (step latency s e) = invocations s
    \<and> set (timers (step latency s e)) \<subseteq> set (timers s)
    \<and> length (inflight (step latency s e)) \<le> length (inflight s)"
  using assms
  by (cases e)
    (auto simp: resume_def cleanup_def clearTimeout_def runDetection_def Let_def
      split: list.splits option.splits)

lemma stopped_run:
  "\<not> isRunning s \<Longrightarrow>
     \<not> isRunning (run latency s es) \<and> view (run latency s es) = view s
     \<and> delivered (run latency s es) = delivered s
     \<and> invocations (run latency s es) = invocations s
     \<and> set (timers (run latency s es)) \<subseteq> set (timers s)
     \<and> length (inflight (run latency s es)) \<le> length (inflight s)"
proof (induction es arbitrary: s)
  case Nil
  then show ?case by simp
next
  case (Cons e es)
  from stopped_step [OF Cons.prems, of latency e]
  have st: "\<not> isRunning (step latency s e)" and eq: "view (step latency s e) = view s"
    "delivered (step latency s e) = delivered s"
    "invocations (step latency s e) = invocations s"
    and sub: "set (timers (step latency s e)) \<subseteq> set (timers s)"
    "length (inflight (step latency s e)) \<le> length (inflight s)"
    by simp_all
  from Cons.IH [OF st] eq sub show ?case by auto
qed

lemma cleanup_fields:
  "\<not> isRunning (cleanup s)" "view (cleanup s) = view s" "delivered (cleanup s) = delivered s"
  "invocations (cleanup s) = invocations s" "inflight (cleanup s) = inflight s"
  by (simp_all add: cleanup_def clearTimeout_def Let_def split: option.splits)

lemma cleanup_idem: "cleanup (cleanup s) = cleanup s"
  by (simp add: cleanup_def clearTimeout_def Let_def split: option.splits)

lemma startLoop_cleanup_no_timers:
  "timers (run latency (step latency (run latency (startLoop interval callback v t0) es) Cleanup) fs) = []"
proof -
  let ?s = "run latency (startLoop interval callback v t0) es"
  have inv: "loop_inv latency ?s"
    by (rule loop_inv_run [OF loop_inv_startLoop])
  have c: "timers (cleanup ?s) = []"
    by (rule timers_cleanup_reachable [OF inv])
  have "set (timers (run latency (cleanup ?s) fs)) \<subseteq> set (timers (cleanup ?s))"
    using stopped_run [OF cleanup_fields(1), of latency ?s fs] by simp
  with c show ?thesis by simp
qed

text \<open>
  Claim C3. In every execution of a loop made by \<^verbatim>\<open>createFaceDetectionLoop\<close> or
  \<^verbatim>\<open>createDocumentDetectionLoop\<close>, whatever the order of the tasks, at most one
  detector call is outstanding, and while one is outstanding no timer of the loop is
  pending: the next call is scheduled when the previous one has completed,
  \<open>intervalMs\<close> later. So two consecutive calls of a detector that takes at least
  \<open>latency\<close> are at least \<open>latency + intervalMs\<close> apart, and with 250 ms and a
  detector that takes 600 ms they are at least 600 ms apart.
\<close>

theorem detector_calls_never_overlap:
  "length (inflight (run latency (createFaceDetectionLoop callback interval v t0) es)) \<le> 1
   \<and> length (inflight (run latency (createFaceDetectionLoop callback interval v t0) es))
       + length (timers (run latency (createFaceDetectionLoop callback interval v t0) es)) \<le> 1
   \<and> spaced (latency + (case interval of None \<Rightarrow> 250 | Some i \<Rightarrow> i))
       (invocations (run latency (createFaceDetectionLoop callback interval v t0) es))
   \<and> length (inflight (run latency (createDocumentDetectionLoop callback' interval v' t0) es')) \<le> 1
   \<and> length (inflight (run latency (createDocumentDetectionLoop callback' interval v' t0) es'))
       + length (timers (run latency (createDocumentDetectionLoop callback' interval v' t0) es')) \<le> 1
   \<and> spaced (latency + (case interval of None \<Rightarrow> 500 | Some i \<Rightarrow> i))
       (invocations (run latency (createDocumentDetectionLoop callback' interval v' t0) es'))
   \<and> spaced 600 (invocations (run 600 (createFaceDetectionLoop callback (Some 250) v t0) es))
   \<and> spaced 600 (invocations (run 600 (createDocumentDetectionLoop callback' (Some 250) v' t0) es'))"
proof -
  note f = startLoop_serialized [of latency "case interval of None \<Rightarrow> 250 | Some i \<Rightarrow> i" callback v t0 es]
  note d = startLoop_serialized [of latency "case interval of None \<Rightarrow> 500 | Some i \<Rightarrow> i" callback' v' t0 es']
  have f6: "spaced 600 (invocations (run 600 (startLoop 250 callback v t0) es))"
    using startLoop_serialized [of 600 250 callback v t0 es]
    by (auto intro: spaced_mono [of 600 "600 + 250"])
  have d6: "spaced 600 (invocations (run 600 (startLoop 250 callback' v' t0) es'))"
    using startLoop_serialized [of 600 250 callback' v' t0 es']
    by (auto intro: spaced_mono [of 600 "600 + 250"])
  from f d f6 d6 show ?thesis
    by (simp add: createFaceDetectionLoop_def createDocumentDetectionLoop_def)
qed


theorem detector_calls_never_overlap_witness:
  "invocations (run 600 (createFaceDetectionLoop collect (Some 250) [] 0)
      [Elapse 600, Resolves 1, Elapse 250, TimerFires 1, Resolves 2, Elapse 600,
       Resolves 2, TimerFires 1, Elapse 250, TimerFires 2]) = [0, 850, 1700]
   \<and> spaced 600 (invocations (run 600 (createFaceDetectionLoop collect (Some 250) [] 0)
      [Elapse 600, Resolves 1, Elapse 250, TimerFires 1, Resolves 2, Elapse 600,
       Resolves 2, TimerFires 1, Elapse 250, TimerFires 2]))
   \<and> length (inflight (run 600 (createFaceDetectionLoop collect (Some 250) [] 0)
      [Elapse 600, Resolves 1, Elapse 250, TimerFires 1, Resolves 2, Elapse 600,
       Resolves 2, TimerFires 1, Elapse 250, TimerFires 2])) \<le> 1"
proof -
  let ?s = "run 600 (createFaceDetectionLoop collect (Some 250) [] 0)
      [Elapse 600, Resolves 1, Elapse 250, TimerFires 1, Resolves 2, Elapse 600,
       Resolves 2, TimerFires 1, Elapse 250, TimerFires 2]"
  have e: "invocations ?s = [0, 850, 1700]"
    by code_simp
  note t = detector_calls_never_overlap [of 600 collect "Some 250" "[]" 0
      "[Elapse 600, Resolves 1, Elapse 250, TimerFires 1, Resolves 2, Elapse 600,
       Resolves 2, TimerFires 1, Elapse 250, TimerFires 2]" collect "[]" "[]"]
  from t have a: "length (inflight ?s) \<le> 1" by (rule conjunct1)
  from t have b: "spaced 600 (invocations ?s)" by blast
  from e b a show ?thesis by (intro conjI)
qed

text \<open>
  Claim C4, as the code has it. Once the cleanup function has been called
  (\<open>isRunning\<close> is false), whatever tasks follow: no result reaches \<open>onResult\<close>, the
  view is not changed, the detector is not called again, and the result of a call that was
  in flight is dropped when it arrives; no timer is added. A second call of the cleanup
  function changes nothing. A cleanup called between two tasks of the loop leaves no timer
  pending. (A cleanup called by \<open>onResult\<close> itself is followed by one more
  \<^verbatim>\<open>setTimeout(runDetection, intervalMs)\<close>, whose callback returns at its guard.)
\<close>

theorem nothing_happens_after_cleanup:
  "(\<not> isRunning s \<longrightarrow>
      \<not> isRunning (run latency s es)
      \<and> view (run latency s es) = view s
      \<and> delivered (run latency s es) = delivered s
      \<and> invocations (run latency s es) = invocations s
      \<and> length (inflight (run latency s es)) \<le> length (inflight s)
      \<and> set (timers (run latency s es)) \<subseteq> set (timers s))
   \<and> \<not> isRunning (cleanup s)
   \<and> cleanup (cleanup s) = cleanup s
   \<and> timers (run latency
        (step latency (run latency (createFaceDetectionLoop callback interval v t0) es0) Cleanup)
        es1) = []
   \<and> timers (run latency
        (step latency (run latency (createDocumentDetectionLoop callback' interval v' t0) es0') Cleanup)
        es1') = []"
proof -
  have a: "\<not> isRunning s \<longrightarrow>
      \<not> isRunning (run latency s es)
      \<and> view (run latency s es) = view s
      \<and> delivered (run latency s es) = delivered s
      \<and> invocations (run latency s es) = invocations s
      \<and> length (inflight (run latency s es)) \<le> length (inflight s)
      \<and> set (timers (run latency s es)) \<subseteq> set (timers s)"
    using stopped_run [of s latency es] by blast
  have b: "\<not> isRunning (cleanup s)" by (rule cleanup_fields(1))
  have c: "cleanup (cleanup s) = cleanup s" by (rule cleanup_idem)
  have d: "timers (run latency
        (step latency (run latency (createFaceDetectionLoop callback interval v t0) es0) Cleanup)
        es1) = []"
    unfolding createFaceDetectionLoop_def by (rule startLoop_cleanup_no_timers)
  have e: "timers (run latency
        (step latency (run latency (createDocumentDetectionLoop callback' interval v' t0) es0') Cleanup)
        es1') = []"
    unfolding createDocumentDetectionLoop_def by (rule startLoop_cleanup_no_timers)
  from a b c d e show ?thesis by blast
qed

theorem nothing_happens_after_cleanup_witness:
  "\<not> isRunning (step 600 (createFaceDetectionLoop collect None [] 0) Cleanup)
   \<and> inflight (step 600 (createFaceDetectionLoop collect None [] 0) Cleanup) = [0]
   \<and> delivered (run 600 (step 600 (createFaceDetectionLoop collect None [] 0) Cleanup)
        [Elapse 600, Resolves 7, Elapse 250, TimerFires 1, Cleanup]) = []
   \<and> view (run 600 (step 600 (createFaceDetectionLoop collect None [] 0) Cleanup)
        [Elapse 600, Resolves 7, Elapse 250, TimerFires 1, Cleanup]) = []"
proof -
  let ?s = "step 600 (createFaceDetectionLoop collect None [] 0) Cleanup"
  let ?es = "[Elapse 600, Resolves 7, Elapse 250, TimerFires 1, Cleanup]"
  have h1: "\<not> isRunning ?s" by code_simp
  have h2: "inflight ?s = [0]" by code_simp
  have h3: "delivered ?s = []" by code_simp
  have h4: "view ?s = []" by code_simp
  have "\<not> isRunning ?s \<longrightarrow>
      \<not> isRunning (run 600 ?s ?es)
      \<and> view (run 600 ?s ?es) = view ?s
      \<and> delivered (run 600 ?s ?es) = delivered ?s
      \<and> invocations (run 600 ?s ?es) = invocations ?s
      \<and> length (inflight (run 600 ?s ?es)) \<le> length (inflight ?s)
      \<and> set (timers (run 600 ?s ?es)) \<subseteq> set (timers ?s)"
    using nothing_happens_after_cleanup [of ?s 600 ?es collect None "[]" 0 "[]" "[]" collect "[]" "[]" "[]"]
    by (rule conjunct1)
  with h1 have c: "view (run 600 ?s ?es) = view ?s" "delivered (run 600 ?s ?es) = delivered ?s"
    by blast+
  from c(1) h4 have v: "view (run 600 ?s ?es) = []" by (rule trans)
  from c(2) h3 have d: "delivered (run 600 ?s ?es) = []" by (rule trans)
  from h1 h2 d v show ?thesis by (intro conjI)
qed

text \<open>
  The statement cannot be strengthened to "no timer is pending after the cleanup": the
  continuation of \<^verbatim>\<open>runDetection\<close> tests \<open>isRunning\<close> before it calls
  \<open>onResult\<close> and not again before \<^verbatim>\<open>setTimeout\<close>. When \<open>onResult\<close> calls the
  cleanup function, as the selfie page does on the result that triggers the capture, the
  next timer is set all the same.
\<close>

theorem cleanup_inside_callback_schedules_timer:
  "\<not> isRunning (step 0 (createFaceDetectionLoop collectAndStop None [] 0) (Resolves 7))
   \<and> timers (step 0 (createFaceDetectionLoop collectAndStop None [] 0) (Resolves 7)) = [(1, 250)]
   \<and> calls (view (step 0 (createFaceDetectionLoop selfieOnResult (Some 250)
        (deliverAll mounted (replicate 20 allTrue)) 0) (Resolves allTrue)))
       = [(StopDetectionLoop, True), (GetDataUri, True), (GoToNextStep, True)]
   \<and> \<not> isRunning (step 0 (createFaceDetectionLoop selfieOnResult (Some 250)
        (deliverAll mounted (replicate 20 allTrue)) 0) (Resolves allTrue))
   \<and> timers (step 0 (createFaceDetectionLoop selfieOnResult (Some 250)
        (deliverAll mounted (replicate 20 allTrue)) 0) (Resolves allTrue)) = [(1, 250)]"
  by code_simp

section \<open>Facts about the detector services\<close>

text \<open>Neither detector rejects: whatever the library does, the call resolves, and it
  resolves to the neutral result when the library throws.\<close>

lemma try_catch_total:
  "(\<And>e. \<exists>r. handler e = Inr r) \<Longrightarrow> \<exists>r. try_catch body handler = Inr r"
  by (cases body) (auto simp: try_catch_def)

lemma detectFace_total: "\<exists>r. detectFace modelsLoaded lib v tol = Inr r"
  unfolding detectFace_def by (auto intro!: try_catch_total)

lemma detectFace_library_failure:
  "lib v = Inl e \<Longrightarrow> detectFace modelsLoaded lib v tol = Inr notDetected"
  by (simp add: detectFace_def try_catch_def and_then_def)

lemma detectFace_neutral_or_detected:
  "detectFace modelsLoaded lib v tol = Inr r \<Longrightarrow>
     r = notDetected \<or> FaceDetectionResult.detected r"
  by (auto simp: detectFace_def try_catch_def and_then_def Let_def
      split: if_splits sum.splits option.splits prod.splits)

lemma detectDocument_total: "\<exists>r. detectDocument scan src = Inr r"
  unfolding detectDocument_def by (auto intro!: try_catch_total)

lemma detectDocument_library_failure:
  "processableSource src = Some p \<Longrightarrow> scan p = Inl e \<Longrightarrow>
     detectDocument scan src = Inr neutralDocument"
  by (cases src)
    (auto simp: detectDocument_def try_catch_def and_then_def split: if_splits)

lemma settle_detectFace: "\<exists>r. settle (detectFace modelsLoaded lib v tol) = Resolves r"
  using detectFace_total [of modelsLoaded lib v tol] by (auto simp: settle_def)

lemma settle_detectDocument: "\<exists>r. settle (detectDocument scan src) = Resolves r"
  using detectDocument_total [of scan src] by (auto simp: settle_def)

lemma measureDocument_found:
  assumes "success result" "ScanDocumentResult.corners result = Some c"
  shows "measureDocument src result =
     \<lparr>detected = True, corners = Some c,
      confidence = js_gt (js_div (js_mul (docWidth c) (docHeight c))
                                 (js_mul (sourceWidth src) (sourceHeight src)))
                         (fl (15 / 100))\<rparr>"
  using assms by (simp add: measureDocument_def Let_def)

lemma measureDocument_not_found:
  "\<not> success result \<or> ScanDocumentResult.corners result = None \<Longrightarrow>
     measureDocument src result = neutralDocument"
  by (auto simp: measureDocument_def)

lemma detectDocument_scanned:
  "processableSource src = Some p \<Longrightarrow> scan p = Inr result \<Longrightarrow>
     detectDocument scan src = Inr (measureDocument src result)"
  by (cases src)
    (auto simp: detectDocument_def try_catch_def and_then_def split: if_splits)

text \<open>
  Claim C10, as the code has it. When the scanner succeeds and returns corners,
  \<^verbatim>\<open>detectDocument\<close> returns \<open>detected = true\<close> with these corners, and
  \<open>confidence\<close> is true exactly when the quotient of the document area by the frame
  area, both products and the quotient computed in double arithmetic, exceeds the double
  0.15; the document area is the larger of the two widths times the larger of the two
  heights of the quadrilateral. When the scan reports no success or no corners, the
  result is \<open>detected = false\<close>, \<open>corners = null\<close>, \<open>confidence = false\<close>.
\<close>

theorem detectDocument_confidence_threshold:
  "(processableSource src = Some p \<and> scan p = Inr result \<and> success result
      \<and> ScanDocumentResult.corners result = Some c \<longrightarrow>
      detectDocument scan src =
        Inr \<lparr>detected = True, corners = Some c,
             confidence =
               js_gt (js_div
                        (js_mul
                           (js_max (js_abs (js_sub (xc (topRight c)) (xc (topLeft c))))
                                   (js_abs (js_sub (xc (bottomRight c)) (xc (bottomLeft c)))))
                           (js_max (js_abs (js_sub (yc (bottomLeft c)) (yc (topLeft c))))
                                   (js_abs (js_sub (yc (bottomRight c)) (yc (topRight c))))))
                        (js_mul (sourceWidth src) (sourceHeight src)))
                     (fl (15 / 100))\<rparr>)
   \<and> (processableSource src = Some p \<and> scan p = Inr result
      \<and> (\<not> success result \<or> ScanDocumentResult.corners result = None) \<longrightarrow>
      detectDocument scan src = Inr \<lparr>detected = False, corners = None, confidence = False\<rparr>)"
  using detectDocument_scanned [of src p scan result] measureDocument_found [of result c src]
    measureDocument_not_found [of result src]
  by (auto simp: neutralDocument_def docWidth_def docHeight_def)

theorem detectDocument_confidence_threshold_witness:
  "detectDocument (\<lambda>p. Inr \<lparr>success = True, corners = Some \<lparr>topLeft = Point (Finite 0) (Finite 0),
        topRight = Point (Finite 10) (Finite 0),
        bottomRight = Point (Finite 10) (Finite 10),
        bottomLeft = Point (Finite 0) (Finite 10)\<rparr>\<rparr>)
     (HTMLImageElement 20 20)
   = Inr \<lparr>detected = True, corners = Some \<lparr>topLeft = Point (Finite 0) (Finite 0),
        topRight = Point (Finite 10) (Finite 0),
        bottomRight = Point (Finite 10) (Finite 10),
        bottomLeft = Point (Finite 0) (Finite 10)\<rparr>, confidence = True\<rparr>
   \<and> detectDocument (\<lambda>p. Inr \<lparr>success = False, corners = Some \<lparr>topLeft = Point (Finite 0) (Finite 0),
        topRight = Point (Finite 10) (Finite 0),
        bottomRight = Point (Finite 10) (Finite 10),
        bottomLeft = Point (Finite 0) (Finite 10)\<rparr>\<rparr>)
     (HTMLImageElement 20 20)
   = Inr \<lparr>detected = False, corners = None, confidence = False\<rparr>"
proof -
  let ?c = "\<lparr>topLeft = Point (Finite 0) (Finite 0),
        topRight = Point (Finite 10) (Finite 0),
        bottomRight = Point (Finite 10) (Finite 10),
        bottomLeft = Point (Finite 0) (Finite 10)\<rparr>"
  have n: "js_gt (js_div
                        (js_mul
                           (js_max (js_abs (js_sub (xc (topRight ?c)) (xc (topLeft ?c))))
                                   (js_abs (js_sub (xc (bottomRight ?c)) (xc (bottomLeft ?c)))))
                           (js_max (js_abs (js_sub (yc (bottomLeft ?c)) (yc (topLeft ?c))))
                                   (js_abs (js_sub (yc (bottomRight ?c)) (yc (topRight ?c))))))
                        (js_mul (sourceWidth (HTMLImageElement 20 20))
                                (sourceHeight (HTMLImageElement 20 20))))
                     (fl (15 / 100))"
    by code_simp
  have a: "detectDocument (\<lambda>p. Inr \<lparr>success = True, corners = Some ?c\<rparr>) (HTMLImageElement 20 20)
      = Inr \<lparr>detected = True, corners = Some ?c, confidence = True\<rparr>"
    using detectDocument_confidence_threshold [of "HTMLImageElement 20 20" "HTMLImageElement 20 20"
        "\<lambda>p. Inr \<lparr>success = True, corners = Some ?c\<rparr>"
        "\<lparr>success = True, corners = Some ?c\<rparr>" ?c] n
    by simp
  have b: "detectDocument (\<lambda>p. Inr \<lparr>success = False, corners = Some ?c\<rparr>) (HTMLImageElement 20 20)
      = Inr \<lparr>detected = False, corners = None, confidence = False\<rparr>"
    using detectDocument_confidence_threshold [of "HTMLImageElement 20 20" "HTMLImageElement 20 20"
        "\<lambda>p. Inr \<lparr>success = False, corners = Some ?c\<rparr>"
        "\<lparr>success = False, corners = Some ?c\<rparr>" ?c]
    by simp
  from a b show ?thesis by (rule conjI)
qed

text \<open>The comparison is not the exact one. In a 640 by 480 frame a document 201 wide
  and 229.2537313432836 high covers more than 15% of the frame and is not confident: the
  product rounds to 46080 and the quotient to the double 0.15. In a 33 by 17 frame a
  document 21 wide and 4.007142857142857 high covers no more than 15% and is
  confident.\<close>

theorem detectDocument_confidence_is_rounded:
  "detectDocument (\<lambda>p. Inr \<lparr>success = True, corners = Some \<lparr>topLeft = Point (Finite 0) (Finite 0),
        topRight = Point (Finite 201) (Finite 0),
        bottomRight = Point (Finite 201) (Finite (8066148586335217 / 2 ^ 45)),
        bottomLeft = Point (Finite 0) (Finite (8066148586335217 / 2 ^ 45))\<rparr>\<rparr>)
     (HTMLImageElement 640 480)
   = Inr \<lparr>detected = True, corners = Some \<lparr>topLeft = Point (Finite 0) (Finite 0),
        topRight = Point (Finite 201) (Finite 0),
        bottomRight = Point (Finite 201) (Finite (8066148586335217 / 2 ^ 45)),
        bottomLeft = Point (Finite 0) (Finite (8066148586335217 / 2 ^ 45))\<rparr>, confidence = False\<rparr>
   \<and> (15 / 100 :: rat) * (640 * 480) < 201 * (8066148586335217 / 2 ^ 45)
   \<and> detectDocument (\<lambda>p. Inr \<lparr>success = True, corners = Some \<lparr>topLeft = Point (Finite 0) (Finite 0),
        topRight = Point (Finite 21) (Finite 0),
        bottomRight = Point (Finite 21) (Finite (4511641769562229 / 2 ^ 50)),
        bottomLeft = Point (Finite 0) (Finite (4511641769562229 / 2 ^ 50))\<rparr>\<rparr>)
     (HTMLCanvasElement 33 17)
   = Inr \<lparr>detected = True, corners = Some \<lparr>topLeft = Point (Finite 0) (Finite 0),
        topRight = Point (Finite 21) (Finite 0),
        bottomRight = Point (Finite 21) (Finite (4511641769562229 / 2 ^ 50)),
        bottomLeft = Point (Finite 0) (Finite (4511641769562229 / 2 ^ 50))\<rparr>, confidence = True\<rparr>
   \<and> 21 * (4511641769562229 / 2 ^ 50) \<le> (15 / 100 :: rat) * (33 * 17)"
  by code_simp

text \<open>
  Claim C6. The detectors never reject and turn a failure of the library into the
  neutral result (the lemmas above), but the claim goes on to say that the stability
  counter never advances on a failed frame. The selfie handler tests the value of
  \<^verbatim>\<open>faceReady\<close> that the previous result left, so a failed frame that follows a good
  one advances the counter, and a failed frame that follows 20 good ones takes the
  picture.
\<close>

theorem counter_advances_on_failed_frame:
  "detectFace True (\<lambda>v. Inl (Thrown ''inference failed''))
      \<lparr>readyState = 4, videoWidth = 640, videoHeight = 480\<rparr> (fl (8 / 100)) = Inr notDetected
   \<and> stableFrames (deliverAll mounted [allTrue]) = 0
   \<and> stableFrames (deliverAll mounted [allTrue, notDetected]) = 1
   \<and> \<not> isCapturing (deliverAll mounted (replicate 20 allTrue))
   \<and> isCapturing (deliverAll mounted (replicate 20 allTrue @ [notDetected]))
   \<and> captures (deliverAll mounted (replicate 20 allTrue @ [notDetected])) = 1"
  by code_simp

section \<open>Facts about the document pages\<close>

text \<open>
  Claim C8. When a validation result is displayed, the message is the success message
  exactly when the result has \<open>detected\<close> and \<open>confidence\<close>, the warning exactly
  when it has \<open>detected\<close> without \<open>confidence\<close>, the failure message exactly when
  it has not \<open>detected\<close>; one of the three is shown, and no two are.
\<close>

theorem validation_feedback_tristate:
  "(validationFeedback False (Some r) = Some Success \<longleftrightarrow> detected r \<and> confidence r)
   \<and> (validationFeedback False (Some r) = Some Warning \<longleftrightarrow> detected r \<and> \<not> confidence r)
   \<and> (validationFeedback False (Some r) = Some Error \<longleftrightarrow> \<not> detected r)
   \<and> (validationFeedback False (Some r) = Some Success
        \<or> validationFeedback False (Some r) = Some Warning
        \<or> validationFeedback False (Some r) = Some Error)
   \<and> validationFeedback False (Some r) \<noteq> Some Validating
   \<and> validationFeedback False (Some r) \<noteq> None"
  by (simp add: validationFeedback_def)

theorem validation_feedback_tristate_witness:
  "validationFeedback False (Some \<lparr>detected = True, corners = Some \<lparr>topLeft = Point (Finite 0) (Finite 0),
      topRight = Point (Finite 10) (Finite 0), bottomRight = Point (Finite 10) (Finite 10), bottomLeft = Point (Finite 0) (Finite 10)\<rparr>,
      confidence = False\<rparr>) = Some Warning"
  using validation_feedback_tristate [of "\<lparr>detected = True, corners = Some \<lparr>topLeft = Point (Finite 0) (Finite 0),
      topRight = Point (Finite 10) (Finite 0), bottomRight = Point (Finite 10) (Finite 10), bottomLeft = Point (Finite 0) (Finite 10)\<rparr>,
      confidence = False\<rparr>"]
  by simp

text \<open>
  Claim C5, as the code has it. For a result with \<open>detected\<close> and without
  \<open>confidence\<close> the composite predicate is false and the indicator says "move closer";
  the camera button is disabled exactly when the toggle \<^verbatim>\<open>$isDisabled\<close> is on or the
  result has not \<open>detected\<close>, so for such a result, as for one that satisfies the
  composite predicate, the button follows the toggle alone.
\<close>

theorem camera_button_follows_detected:
  "(detected r \<and> \<not> confidence r \<longrightarrow>
      \<not> documentComposite r
      \<and> detectionIndicator True r = Some MoveCloser
      \<and> (cameraButtonDisabled toggle r \<longleftrightarrow> toggle))
   \<and> (cameraButtonDisabled toggle r \<longleftrightarrow> toggle \<or> \<not> detected r)
   \<and> (documentComposite r \<longrightarrow> (cameraButtonDisabled toggle r \<longleftrightarrow> toggle))"
  by (auto simp: documentComposite_def cameraButtonDisabled_def detectionIndicator_def)

theorem camera_button_follows_detected_witness:
  "detectionIndicator True \<lparr>detected = True, corners = Some \<lparr>topLeft = Point (Finite 0) (Finite 0),
      topRight = Point (Finite 10) (Finite 0), bottomRight = Point (Finite 10) (Finite 10), bottomLeft = Point (Finite 0) (Finite 10)\<rparr>,
      confidence = False\<rparr> = Some MoveCloser
   \<and> cameraButtonDisabled True \<lparr>detected = True, corners = Some \<lparr>topLeft = Point (Finite 0) (Finite 0),
      topRight = Point (Finite 10) (Finite 0), bottomRight = Point (Finite 10) (Finite 10), bottomLeft = Point (Finite 0) (Finite 10)\<rparr>,
      confidence = False\<rparr>"
  using camera_button_follows_detected [of "\<lparr>detected = True, corners = Some \<lparr>topLeft = Point (Finite 0) (Finite 0),
      topRight = Point (Finite 10) (Finite 0), bottomRight = Point (Finite 10) (Finite 10), bottomLeft = Point (Finite 0) (Finite 10)\<rparr>,
      confidence = False\<rparr>" True]
  by simp

text \<open>The button is not gated by the composite predicate: with the toggle off, a result
  with \<open>detected\<close> and without \<open>confidence\<close> leaves it enabled.\<close>

theorem camera_button_enabled_without_confidence:
  "\<not> documentComposite \<lparr>detected = True, corners = Some \<lparr>topLeft = Point (Finite 0) (Finite 0),
      topRight = Point (Finite 10) (Finite 0), bottomRight = Point (Finite 10) (Finite 10), bottomLeft = Point (Finite 0) (Finite 10)\<rparr>,
      confidence = False\<rparr>
   \<and> \<not> cameraButtonDisabled False \<lparr>detected = True, corners = Some \<lparr>topLeft = Point (Finite 0) (Finite 0),
      topRight = Point (Finite 10) (Finite 0), bottomRight = Point (Finite 10) (Finite 10), bottomLeft = Point (Finite 0) (Finite 10)\<rparr>,
      confidence = False\<rparr>"
  by (simp add: documentComposite_def cameraButtonDisabled_def)

lemma pageInv_mounted: "pageInv checkDocumentMounted"
  by (simp add: pageInv_def checkDocumentMounted_def idle_def)

lemma pageInv_step:
  assumes "pageInv s"
  shows "pageInv (pageStep s e)"
proof (cases e)
  case (ImageChanged b)
  with assms show ?thesis by (simp add: pageInv_def)
next
  case Flush
  with assms show ?thesis
    by (auto simp: pageInv_def validateReactive_def validateDocumentImage_def)
next
  case (ImageLoads scan w h)
  obtain r where r: "detectDocument scan (HTMLImageElement w h) = Inr r"
    using detectDocument_total by blast
  show ?thesis
  proof (cases "jobs (service s)")
    case Nil
    with assms ImageLoads show ?thesis by (simp add: pageInv_def onload_def)
  next
    case (Cons b bs)
    with assms have "bs = []" "passes (service s) = 0" by (auto simp: pageInv_def)
    with Cons assms ImageLoads r show ?thesis
      by (simp add: pageInv_def onload_def validated_def)
  qed
next
  case ImageFails
  show ?thesis
  proof (cases "jobs (service s)")
    case Nil
    with assms ImageFails show ?thesis by (simp add: pageInv_def onerror_def)
  next
    case (Cons b bs)
    with assms have "bs = []" "passes (service s) = 0" by (auto simp: pageInv_def)
    with Cons assms ImageFails show ?thesis
      by (simp add: pageInv_def onerror_def validated_def)
  qed
qed

lemma pageInv_run: "pageInv s \<Longrightarrow> pageInv (pageRun s es)"
  by (induction es arbitrary: s) (simp_all add: pageInv_step)

text \<open>
  Claim C7, as the code has it. The reactive block of the check-document page starts a
  validation only when there is an image, no result is stored and no validation is
  pending, and then it starts exactly one, for that image; otherwise it does nothing. So
  in every state of the page at most one validation is pending, at most one detection
  pass has run, and \<^verbatim>\<open>isValidating\<close> is set exactly while a validation is pending.
  \<^verbatim>\<open>validateDocumentImage\<close> itself keeps nothing between calls: each call adds a
  validation of its own, and each validation whose image loads runs a detection pass of
  its own.
\<close>

theorem page_validates_once_at_a_time:
  "length (jobs (service (pageRun checkDocumentMounted es))) \<le> 1
   \<and> passes (service (pageRun checkDocumentMounted es))
       + length (jobs (service (pageRun checkDocumentMounted es))) \<le> 1
   \<and> (isValidating (pageRun checkDocumentMounted es)
        \<longleftrightarrow> jobs (service (pageRun checkDocumentMounted es)) \<noteq> [])
   \<and> (isValidating s \<longrightarrow> validateReactive s = s)
   \<and> jobs (validateDocumentImage b v) = jobs v @ [b]
   \<and> (image s = [] \<or> validationResult s \<noteq> None \<or> isValidating s \<longrightarrow>
        validateReactive s = s)
   \<and> (image s \<noteq> [] \<and> validationResult s = None \<and> \<not> isValidating s \<longrightarrow>
        validateReactive s
          = s\<lparr>isValidating := True,
              service := (service s)\<lparr>jobs := jobs (service s) @ [image s]\<rparr>\<rparr>)
   \<and> passes (validateDocumentImage b v) = passes v
   \<and> (jobs v = b # bs \<longrightarrow>
        passes (fst (onload scan w h v)) = Suc (passes v)
        \<and> jobs (fst (onload scan w h v)) = bs)"
proof -
  have inv: "pageInv (pageRun checkDocumentMounted es)"
    by (rule pageInv_run [OF pageInv_mounted])
  have a: "length (jobs (service (pageRun checkDocumentMounted es))) \<le> 1
   \<and> passes (service (pageRun checkDocumentMounted es))
       + length (jobs (service (pageRun checkDocumentMounted es))) \<le> 1
   \<and> (isValidating (pageRun checkDocumentMounted es)
        \<longleftrightarrow> jobs (service (pageRun checkDocumentMounted es)) \<noteq> [])"
    using inv by (auto simp: pageInv_def)
  have b: "isValidating s \<longrightarrow> validateReactive s = s"
    by (simp add: validateReactive_def)
  have c: "jobs (validateDocumentImage b v) = jobs v @ [b]"
    "passes (validateDocumentImage b v) = passes v"
    by (simp_all add: validateDocumentImage_def)
  have d: "image s = [] \<or> validationResult s \<noteq> None \<or> isValidating s \<longrightarrow>
        validateReactive s = s"
    by (auto simp: validateReactive_def)
  have e: "image s \<noteq> [] \<and> validationResult s = None \<and> \<not> isValidating s \<longrightarrow>
        validateReactive s
          = s\<lparr>isValidating := True,
              service := (service s)\<lparr>jobs := jobs (service s) @ [image s]\<rparr>\<rparr>"
    by (simp add: validateReactive_def validateDocumentImage_def)
  have f: "jobs v = b # bs \<longrightarrow>
        passes (fst (onload scan w h v)) = Suc (passes v)
        \<and> jobs (fst (onload scan w h v)) = bs"
    by (auto simp: onload_def split: sum.splits)
  from a b c d e f show ?thesis by blast
qed

theorem page_validates_once_at_a_time_witness:
  "isValidating (pageRun checkDocumentMounted [ImageChanged ''data:image/png'', Flush])
   \<and> jobs (service (pageRun checkDocumentMounted
        [ImageChanged ''data:image/png'', Flush, Flush, ImageChanged ''data:image/png'', Flush]))
      = [''data:image/png'']
   \<and> validateReactive (pageRun checkDocumentMounted [ImageChanged ''data:image/png'', Flush])
      = pageRun checkDocumentMounted [ImageChanged ''data:image/png'', Flush]
   \<and> validateReactive checkDocumentMounted = checkDocumentMounted
   \<and> jobs (service (validateReactive (pageRun checkDocumentMounted [ImageChanged ''data:image/png''])))
      = [''data:image/png'']
   \<and> passes (fst (onload (\<lambda>p. Inr \<lparr>success = False, corners = None\<rparr>) 20 20
        (validateDocumentImage ''data:image/png'' idle))) = 1"
proof -
  let ?s1 = "pageRun checkDocumentMounted [ImageChanged ''data:image/png'']"
  let ?s2 = "pageRun checkDocumentMounted [ImageChanged ''data:image/png'', Flush]"
  let ?scan = "\<lambda>p :: source. Inr \<lparr>success = False, corners = None\<rparr> :: exn + ScanDocumentResult"
  have h: "isValidating ?s2"
    by code_simp
  have j: "jobs (service (pageRun checkDocumentMounted
        [ImageChanged ''data:image/png'', Flush, Flush, ImageChanged ''data:image/png'', Flush]))
      = [''data:image/png'']"
    by code_simp
  have "isValidating ?s2 \<longrightarrow> validateReactive ?s2 = ?s2"
    using page_validates_once_at_a_time [of "[]" ?s2] by blast
  with h have k: "validateReactive ?s2 = ?s2"
    by (rule mp [rotated])
  have m0: "image checkDocumentMounted = []"
    by code_simp
  have "image checkDocumentMounted = [] \<or> validationResult checkDocumentMounted \<noteq> None
      \<or> isValidating checkDocumentMounted \<longrightarrow>
      validateReactive checkDocumentMounted = checkDocumentMounted"
    using page_validates_once_at_a_time [of "[]" checkDocumentMounted] by blast
  with m0 have m: "validateReactive checkDocumentMounted = checkDocumentMounted"
    by blast
  have n0: "image ?s1 \<noteq> [] \<and> validationResult ?s1 = None \<and> \<not> isValidating ?s1"
    by code_simp
  have n1: "jobs (service ?s1) = []" "image ?s1 = ''data:image/png''"
    by code_simp+
  have "image ?s1 \<noteq> [] \<and> validationResult ?s1 = None \<and> \<not> isValidating ?s1 \<longrightarrow>
      validateReactive ?s1
        = ?s1\<lparr>isValidating := True,
              service := (service ?s1)\<lparr>jobs := jobs (service ?s1) @ [image ?s1]\<rparr>\<rparr>"
    using page_validates_once_at_a_time [of "[]" ?s1] by blast
  with n0 have "validateReactive ?s1
        = ?s1\<lparr>isValidating := True,
              service := (service ?s1)\<lparr>jobs := jobs (service ?s1) @ [image ?s1]\<rparr>\<rparr>"
    by (rule mp [rotated])
  then have n: "jobs (service (validateReactive ?s1)) = [''data:image/png'']"
    using n1 by simp
  have p0: "jobs (validateDocumentImage ''data:image/png'' idle) = ''data:image/png'' # []"
    "passes (validateDocumentImage ''data:image/png'' idle) = 0"
    by code_simp+
  have "jobs (validateDocumentImage ''data:image/png'' idle) = ''data:image/png'' # [] \<longrightarrow>
        passes (fst (onload ?scan 20 20 (validateDocumentImage ''data:image/png'' idle)))
          = Suc (passes (validateDocumentImage ''data:image/png'' idle))
        \<and> jobs (fst (onload ?scan 20 20 (validateDocumentImage ''data:image/png'' idle))) = []"
    using page_validates_once_at_a_time [where b = "''data:image/png''"
        and v = "validateDocumentImage ''data:image/png'' idle" and bs = "[]"
        and scan = ?scan and w = 20 and h = 20]
    by blast
  with p0 have p: "passes (fst (onload ?scan 20 20 (validateDocumentImage ''data:image/png'' idle))) = 1"
    by simp
  from h j k m n p show ?thesis by (intro conjI)
qed

text \<open>Two calls of \<^verbatim>\<open>validateDocumentImage\<close> for one image while the first is
  pending are two validations, and two detection passes once both images have loaded.\<close>

theorem validateDocumentImage_runs_a_pass_per_call:
  "jobs (validateDocumentImage ''data:image/png'' (validateDocumentImage ''data:image/png'' idle))
     = [''data:image/png'', ''data:image/png'']
   \<and> passes (fst (onload (\<lambda>p. Inr \<lparr>success = False, corners = None\<rparr>) 20 20
        (fst (onload (\<lambda>p. Inr \<lparr>success = False, corners = None\<rparr>) 20 20
          (validateDocumentImage ''data:image/png''
            (validateDocumentImage ''data:image/png'' idle)))))) = 2"
  by code_simp

end
